theory Spec2Isabelle
  imports Main "HOL-Library.Word"
begin

unbundle bit_operations_syntax

section \<open>Data model\<close>

text \<open>
  The ledger of \<^verbatim>\<open>package block\<close>. Go's \<^verbatim>\<open>int\<close> and \<^verbatim>\<open>int64\<close> are 64-bit
  words whose addition wraps. A \<^verbatim>\<open>[32]byte\<close> digest is a 256-bit word: the 32 bytes
  read big-endian, which is the order in which \<^verbatim>\<open>fmt.Sprintf("%x", ...)\<close> prints them.
\<close>

type_synonym hash32 = "256 word"
type_synonym go_int = "64 word"

text \<open>
  \<^verbatim>\<open>float32\<close>: a finite value is \<open>(-1)^sign * mant * 2^expo\<close>; the canonical
  form has \<open>mant < 2^24\<close>, \<open>-149 \<le> expo \<le> 104\<close> and \<open>2^23 \<le> mant\<close> unless
  \<open>expo = -149\<close> (subnormals and the two zeros).
\<close>

datatype float32 = Finite bool nat int | Infinity bool | NaN

record transaction =
  SenderBlockchainAddress :: string
  RecipientBlockchainAddress :: string
  Value :: float32

record block =
  Nonce :: go_int
  PreviousHash :: hash32
  Timestamp :: go_int
  Transactions :: "transaction list"

text \<open>Runtime panics of the Go program that the model keeps as results.\<close>

datatype panic = NegativeRepeatCount | IndexOutOfRange | NilDereference

definition MINING_DIFFICULTY :: int where
  "MINING_DIFFICULTY = 3"

definition MINING_SENDER :: string where
  "MINING_SENDER = ''THE BLOCKCHAIN''"

section \<open>Hex formatting of a digest\<close>

definition hex_digit :: "nat \<Rightarrow> char" where
  "hex_digit n = ''0123456789abcdef'' ! n"

text \<open>\<^verbatim>\<open>fmt.Sprintf("%x", h)\<close> for \<^verbatim>\<open>h [32]byte\<close>: 64 lower-case hex characters,
  most significant nibble first.\<close>

definition sprintf_x :: "hash32 \<Rightarrow> string" where
  "sprintf_x h = map (\<lambda>i. hex_digit (unat (drop_bit (4 * (63 - i)) h AND 15))) [0..<64]"

section \<open>Proof of work\<close>

text \<open>
  \<^verbatim>\<open>Block.Hash\<close> is \<^verbatim>\<open>sha256.Sum256(json.Marshal(b))\<close>. Both are library code; the
  composition is the parameter \<open>H\<close> of every function that hashes a block.

  \<^verbatim>\<open>ValidProof\<close>: \<^verbatim>\<open>strings.Repeat("0", difficulty)\<close> panics on a negative count;
  the digest's hex string is sliced at the literal \<^verbatim>\<open>3\<close> and compared with it.
\<close>

definition ValidProof ::
  "(block \<Rightarrow> hash32) \<Rightarrow> go_int \<Rightarrow> hash32 \<Rightarrow> transaction list \<Rightarrow> int \<Rightarrow> panic + bool" where
  "ValidProof H nonce previousHash transactions difficulty =
     (if difficulty < 0 then Inl NegativeRepeatCount
      else
        let zeros = replicate (nat difficulty) CHR ''0'';
            guessBlock = \<lparr>Nonce = nonce, PreviousHash = previousHash, Timestamp = 0,
                          Transactions = transactions\<rparr>;
            guessHashStr = sprintf_x (H guessBlock)
        in Inr (take 3 guessHashStr = zeros))"

text \<open>The property the specification gives for \<^verbatim>\<open>ValidProof\<close>: the first
  \<open>d\<close> hex characters of the trial block's digest are all \<open>0\<close>.\<close>

definition leading_zero_chars :: "(block \<Rightarrow> hash32) \<Rightarrow> go_int \<Rightarrow> hash32 \<Rightarrow> transaction list \<Rightarrow> nat \<Rightarrow> bool" where
  "leading_zero_chars H n p txs d =
     (take d (sprintf_x (H \<lparr>Nonce = n, PreviousHash = p, Timestamp = 0, Transactions = txs\<rparr>))
        = replicate d CHR ''0'')"

section \<open>Chain validation\<close>

text \<open>
  A chain is a slice of block pointers, \<^verbatim>\<open>[]*Block\<close>; a pointer is a
  \<open>block option\<close> and \<open>None\<close> is nil (a chain decoded from a peer holds nil where
  the body has \<^verbatim>\<open>null\<close>). \<^verbatim>\<open>Block.Hash\<close> does not read its receiver itself:
  \<^verbatim>\<open>json.Marshal\<close> encodes a nil \<^verbatim>\<open>*Block\<close> as \<^verbatim>\<open>null\<close>, whose digest is the
  parameter \<open>H_nil\<close>.
\<close>

definition Block_Hash :: "(block \<Rightarrow> hash32) \<Rightarrow> hash32 \<Rightarrow> block option \<Rightarrow> hash32" where
  "Block_Hash H H_nil b = (case b of None \<Rightarrow> H_nil | Some blk \<Rightarrow> H blk)"

text \<open>
  \<^verbatim>\<open>ValidChain\<close> reads \<^verbatim>\<open>chain[0]\<close> before its loop, so an empty chain is an
  index-out-of-range panic. The loop walks the remaining pointers with the previous
  one in hand; reading \<^verbatim>\<open>b.PreviousHash\<close> of a nil \<^verbatim>\<open>b\<close> panics.
\<close>

fun ValidChain_loop ::
  "(block \<Rightarrow> hash32) \<Rightarrow> hash32 \<Rightarrow> block option \<Rightarrow> block option list \<Rightarrow> panic + bool" where
  "ValidChain_loop H H_nil preBlock [] = Inr True"
| "ValidChain_loop H H_nil preBlock (b # rest) =
     (case b of
        None \<Rightarrow> Inl NilDereference
      | Some blk \<Rightarrow>
          if PreviousHash blk \<noteq> Block_Hash H H_nil preBlock then Inr False
          else
            (case ValidProof H (Nonce blk) (PreviousHash blk) (Transactions blk)
                    MINING_DIFFICULTY of
               Inl e \<Rightarrow> Inl e
             | Inr ok \<Rightarrow> if \<not> ok then Inr False else ValidChain_loop H H_nil b rest))"

definition ValidChain :: "(block \<Rightarrow> hash32) \<Rightarrow> hash32 \<Rightarrow> block option list \<Rightarrow> panic + bool" where
  "ValidChain H H_nil chain =
     (case chain of
        [] \<Rightarrow> Inl IndexOutOfRange
      | preBlock # rest \<Rightarrow> ValidChain_loop H H_nil preBlock rest)"

section \<open>The ledger\<close>

text \<open>
  The \<^verbatim>\<open>Blockchain\<close> struct. Its chain is a slice of block pointers, and the record
  takes the element of the chain as a parameter: \<open>block option ledger\<close> is the ledger
  with the pointers as they are, the type on which \<^verbatim>\<open>ResolveConflicts\<close> installs a
  chain decoded from a peer; \<open>blockchain\<close> is the ledger whose chain holds no nil
  pointer, as every chain that the node builds itself, with the blocks written for the
  pointers.
\<close>

record 'blk ledger =
  TransactionPool :: "transaction list"
  Chain :: "'blk list"
  BlockChainAddress :: string
  Port :: "16 word"
  neighbours :: "string list"

type_synonym blockchain = "block ledger"

definition NewTransaction :: "string \<Rightarrow> string \<Rightarrow> float32 \<Rightarrow> transaction" where
  "NewTransaction sender recipient v =
     \<lparr>SenderBlockchainAddress = sender, RecipientBlockchainAddress = recipient, Value = v\<rparr>"

definition LastBlock :: "blockchain \<Rightarrow> panic + block" where
  "LastBlock bc = (if Chain bc = [] then Inl IndexOutOfRange else Inr (last (Chain bc)))"

definition CopyTransactionPool :: "blockchain \<Rightarrow> transaction list" where
  "CopyTransactionPool bc =
     map (\<lambda>t. NewTransaction (SenderBlockchainAddress t) (RecipientBlockchainAddress t) (Value t))
       (TransactionPool bc)"

text \<open>
  The search loop of \<^verbatim>\<open>ProofOfWork\<close>, with the difficulty it hands to
  \<^verbatim>\<open>ValidProof\<close> as an argument. It has no bound: when no nonce passes, the loop
  runs forever and the result is \<open>None\<close>.
\<close>

partial_function (option) ProofOfWork_loop ::
  "(block \<Rightarrow> hash32) \<Rightarrow> hash32 \<Rightarrow> transaction list \<Rightarrow> int \<Rightarrow> go_int \<Rightarrow> (panic + go_int) option" where
  "ProofOfWork_loop H previousHash transactions difficulty nonce =
     (case ValidProof H nonce previousHash transactions difficulty of
        Inl e \<Rightarrow> Some (Inl e)
      | Inr ok \<Rightarrow>
          if \<not> ok then ProofOfWork_loop H previousHash transactions difficulty (nonce + 1)
          else Some (Inr nonce))"

definition ProofOfWork :: "(block \<Rightarrow> hash32) \<Rightarrow> blockchain \<Rightarrow> (panic + go_int) option" where
  "ProofOfWork H bc =
     (let transactions = CopyTransactionPool bc in
      case LastBlock bc of
        Inl e \<Rightarrow> Some (Inl e)
      | Inr b \<Rightarrow> ProofOfWork_loop H (H b) transactions MINING_DIFFICULTY 0)"

section \<open>Consensus\<close>

text \<open>
  What \<^verbatim>\<open>http.Get\<close> and the JSON decoder hand to \<^verbatim>\<open>ResolveConflicts\<close> for one
  neighbour. \<open>NoResponse\<close> is a failed request: \<^verbatim>\<open>http.Get\<close> returns a nil response
  and an error, and the code drops the error. Otherwise the response has a status code
  and, once decoded, leaves a chain of block pointers in \<^verbatim>\<open>bcResp.Chain\<close> (the empty
  chain when the body does not decode, since the decoder's error is dropped too; a nil
  pointer where the body has \<^verbatim>\<open>null\<close> for a block) or panics inside
  \<^verbatim>\<open>Block.UnmarshalJSON\<close>, whose \<^verbatim>\<open>ph[:32]\<close> is out of range for a short
  \<^verbatim>\<open>previousHash\<close>.
\<close>

datatype response = NoResponse | Response int "panic + block option list"

definition chain_endpoint :: "string \<Rightarrow> string" where
  "chain_endpoint n = ''http://'' @ n @ ''/chain''"

text \<open>The loop over \<^verbatim>\<open>bc.neighbours\<close>; its state is \<^verbatim>\<open>longestChain\<close> (nil is
  \<open>None\<close>) and \<^verbatim>\<open>maxLength\<close>.\<close>

fun ResolveConflicts_loop ::
  "(block \<Rightarrow> hash32) \<Rightarrow> hash32 \<Rightarrow> (string \<Rightarrow> response) \<Rightarrow>
   block option list option \<times> nat \<Rightarrow> string list \<Rightarrow> panic + (block option list option \<times> nat)" where
  "ResolveConflicts_loop H H_nil http_Get (longestChain, maxLength) [] =
     Inr (longestChain, maxLength)"
| "ResolveConflicts_loop H H_nil http_Get (longestChain, maxLength) (n # ns) =
     (case http_Get (chain_endpoint n) of
        NoResponse \<Rightarrow> Inl NilDereference
      | Response StatusCode body \<Rightarrow>
          if StatusCode = 200 then
            (case body of
               Inl e \<Rightarrow> Inl e
             | Inr chain \<Rightarrow>
                 if length chain > maxLength then
                   (case ValidChain H H_nil chain of
                      Inl e \<Rightarrow> Inl e
                    | Inr ok \<Rightarrow>
                        if ok then
                          ResolveConflicts_loop H H_nil http_Get (Some chain, length chain) ns
                        else ResolveConflicts_loop H H_nil http_Get (longestChain, maxLength) ns)
                 else ResolveConflicts_loop H H_nil http_Get (longestChain, maxLength) ns)
          else ResolveConflicts_loop H H_nil http_Get (longestChain, maxLength) ns)"

definition ResolveConflicts ::
  "(block \<Rightarrow> hash32) \<Rightarrow> hash32 \<Rightarrow> (string \<Rightarrow> response) \<Rightarrow> block option ledger \<Rightarrow>
   panic + (bool \<times> block option ledger)" where
  "ResolveConflicts H H_nil http_Get bc =
     (case ResolveConflicts_loop H H_nil http_Get (None, length (Chain bc)) (neighbours bc) of
        Inl e \<Rightarrow> Inl e
      | Inr (longestChain, maxLength) \<Rightarrow>
          (case longestChain of
             Some chain \<Rightarrow> Inr (True, bc\<lparr>Chain := chain\<rparr>)
           | None \<Rightarrow> Inr (False, bc)))"

section \<open>float32 arithmetic\<close>

text \<open>
  Transaction values and balances are \<^verbatim>\<open>float32\<close>. Addition is IEEE 754 binary32
  addition with round-to-nearest, ties-to-even: the exact sum is formed over the
  integers at the smaller exponent and rounded to 24 significant bits.
\<close>

fun bit_length :: "nat \<Rightarrow> nat" where
  "bit_length n = (if n = 0 then 0 else Suc (bit_length (n div 2)))"

declare bit_length.simps [simp del]

text \<open>\<open>f32_round s M E\<close> rounds the magnitude \<open>M * 2^E\<close> (\<open>M > 0\<close>) to a
  \<^verbatim>\<open>float32\<close> of sign \<open>s\<close>: \<open>k\<close> low bits are dropped, to nearest, ties to even.\<close>

definition f32_round :: "bool \<Rightarrow> nat \<Rightarrow> int \<Rightarrow> float32" where
  "f32_round s M E =
     (let n = int (bit_length M);
          k = max (n - 24) (- 149 - E)
      in if k \<le> 0 then
           (let j = min (24 - n) (E + 149) in Finite s (M * 2 ^ nat j) (E - j))
         else
           (let q = M div 2 ^ nat k;
                r = M mod 2 ^ nat k;
                half = 2 ^ (nat k - 1);
                q' = (if half < r \<or> (r = half \<and> odd q) then q + 1 else q);
                m = (if q' = 2 ^ 24 then 2 ^ 23 else q');
                e = (if q' = 2 ^ 24 then E + k + 1 else E + k)
            in if 104 < e then Infinity s else Finite s m e))"

definition f32_int :: "bool \<Rightarrow> nat \<Rightarrow> int \<Rightarrow> int \<Rightarrow> int" where
  "f32_int s m e E = (if s then - 1 else 1) * int m * 2 ^ nat (e - E)"

fun f32_add :: "float32 \<Rightarrow> float32 \<Rightarrow> float32" where
  "f32_add NaN y = NaN"
| "f32_add x NaN = NaN"
| "f32_add (Infinity s) (Infinity t) = (if s = t then Infinity s else NaN)"
| "f32_add (Infinity s) (Finite t m e) = Infinity s"
| "f32_add (Finite s m e) (Infinity t) = Infinity t"
| "f32_add (Finite s1 m1 e1) (Finite s2 m2 e2) =
     (let E = min e1 e2;
          total = f32_int s1 m1 e1 E + f32_int s2 m2 e2 E
      in if total = 0 then Finite (s1 \<and> s2) 0 (- 149)
         else f32_round (total < 0) (nat \<bar>total\<bar>) E)"

fun f32_neg :: "float32 \<Rightarrow> float32" where
  "f32_neg NaN = NaN"
| "f32_neg (Infinity s) = Infinity (\<not> s)"
| "f32_neg (Finite s m e) = Finite (\<not> s) m e"

definition f32_sub :: "float32 \<Rightarrow> float32 \<Rightarrow> float32" where
  "f32_sub x y = f32_add x (f32_neg y)"

text \<open>The comparison \<^verbatim>\<open><\<close>: false when either side is NaN.\<close>

fun f32_less :: "float32 \<Rightarrow> float32 \<Rightarrow> bool" where
  "f32_less NaN y = False"
| "f32_less x NaN = False"
| "f32_less (Infinity s) (Infinity t) = (s \<and> \<not> t)"
| "f32_less (Infinity s) (Finite t m e) = s"
| "f32_less (Finite s m e) (Infinity t) = (\<not> t)"
| "f32_less (Finite s1 m1 e1) (Finite s2 m2 e2) =
     (let E = min e1 e2 in f32_int s1 m1 e1 E < f32_int s2 m2 e2 E)"

definition f32_zero :: float32 where
  "f32_zero = Finite False 0 (- 149)"

text \<open>The natural number \<open>n\<close> as a \<^verbatim>\<open>float32\<close> constant (rounded when \<open>n\<close> has more
  than 24 significant bits).\<close>

definition f32_of_nat :: "nat \<Rightarrow> float32" where
  "f32_of_nat n = (if n = 0 then f32_zero else f32_round False n 0)"

definition MINING_REWARD :: float32 where
  "MINING_REWARD = f32_of_nat 1"

section \<open>Balances\<close>

text \<open>The body of the inner loop of \<^verbatim>\<open>CalculateTotalAmount\<close>: both tests are made,
  so a transaction from an address to itself adds and then subtracts its value.\<close>

definition CalculateTotalAmount_step :: "string \<Rightarrow> transaction \<Rightarrow> float32 \<Rightarrow> float32" where
  "CalculateTotalAmount_step blockchainAddress t totalAmount =
     (let v = Value t;
          totalAmount1 = (if blockchainAddress = RecipientBlockchainAddress t
                          then f32_add totalAmount v else totalAmount);
          totalAmount2 = (if blockchainAddress = SenderBlockchainAddress t
                          then f32_sub totalAmount1 v else totalAmount1)
      in totalAmount2)"

definition CalculateTotalAmount :: "blockchain \<Rightarrow> string \<Rightarrow> float32" where
  "CalculateTotalAmount bc blockchainAddress =
     fold (\<lambda>b totalAmount. fold (CalculateTotalAmount_step blockchainAddress) (Transactions b) totalAmount)
       (Chain bc) f32_zero"

section \<open>Transaction admission\<close>

text \<open>
  \<^verbatim>\<open>VerifyTransactionSignature\<close> hashes the JSON encoding of the transaction and calls
  \<^verbatim>\<open>ecdsa.Verify\<close>. The digest \<open>HT\<close> and the verification \<open>ecdsa_Verify\<close> are library
  code and parameters here; the latter is given the key pointer as it is (it may be nil)
  and the pair \<^verbatim>\<open>(s.R, s.S)\<close>, and may panic. Reading \<^verbatim>\<open>s.R\<close> of a nil signature
  panics.
\<close>

definition VerifyTransactionSignature ::
  "(transaction \<Rightarrow> hash32) \<Rightarrow> ('pk option \<Rightarrow> hash32 \<Rightarrow> 'sig \<Rightarrow> panic + bool) \<Rightarrow>
   'pk option \<Rightarrow> 'sig option \<Rightarrow> transaction \<Rightarrow> panic + bool" where
  "VerifyTransactionSignature HT ecdsa_Verify senderPublicKey s t =
     (let h = HT t in
      case s of
        None \<Rightarrow> Inl NilDereference
      | Some rs \<Rightarrow> ecdsa_Verify senderPublicKey h rs)"

definition AddTransaction ::
  "(transaction \<Rightarrow> hash32) \<Rightarrow> ('pk option \<Rightarrow> hash32 \<Rightarrow> 'sig \<Rightarrow> panic + bool) \<Rightarrow> blockchain \<Rightarrow>
   string \<Rightarrow> string \<Rightarrow> float32 \<Rightarrow> 'pk option \<Rightarrow> 'sig option \<Rightarrow> panic + (bool \<times> blockchain)" where
  "AddTransaction HT ecdsa_Verify bc sender recipient v senderPublicKey s =
     (let t = NewTransaction sender recipient v in
      if sender = MINING_SENDER then
        Inr (True, bc\<lparr>TransactionPool := TransactionPool bc @ [t]\<rparr>)
      else
        (case VerifyTransactionSignature HT ecdsa_Verify senderPublicKey s t of
           Inl e \<Rightarrow> Inl e
         | Inr verified \<Rightarrow>
             if verified then
               (if f32_less (CalculateTotalAmount bc sender) v then Inr (False, bc)
                else Inr (True, bc\<lparr>TransactionPool := TransactionPool bc @ [t]\<rparr>))
             else Inr (False, bc)))"

section \<open>Mining\<close>

text \<open>\<^verbatim>\<open>newBlock\<close> stamps the block with \<^verbatim>\<open>time.Now().UnixNano()\<close>, the argument
  \<open>now\<close>.\<close>

definition newBlock :: "go_int \<Rightarrow> go_int \<Rightarrow> hash32 \<Rightarrow> transaction list \<Rightarrow> block" where
  "newBlock now nonce previousHash transactions =
     \<lparr>Nonce = nonce, PreviousHash = previousHash, Timestamp = now, Transactions = transactions\<rparr>"

text \<open>\<^verbatim>\<open>CreateBlock\<close> also asks every neighbour to clear its pool; the responses are
  only logged, and nothing of this ledger depends on them.\<close>

definition CreateBlock :: "go_int \<Rightarrow> blockchain \<Rightarrow> go_int \<Rightarrow> hash32 \<Rightarrow> block \<times> blockchain" where
  "CreateBlock now bc nonce previousHash =
     (let block = newBlock now nonce previousHash (TransactionPool bc)
      in (block, bc\<lparr>Chain := Chain bc @ [block], TransactionPool := []\<rparr>))"

text \<open>\<^verbatim>\<open>Mining\<close>, with the lock and the notification of the neighbours left out. The
  result is \<open>None\<close> when the proof-of-work search does not return.\<close>

definition Mining ::
  "(block \<Rightarrow> hash32) \<Rightarrow> (transaction \<Rightarrow> hash32) \<Rightarrow> ('pk option \<Rightarrow> hash32 \<Rightarrow> 'sig \<Rightarrow> panic + bool) \<Rightarrow>
   go_int \<Rightarrow> blockchain \<Rightarrow> (panic + (bool \<times> blockchain)) option" where
  "Mining H HT ecdsa_Verify now bc =
     (case AddTransaction HT ecdsa_Verify bc MINING_SENDER (BlockChainAddress bc) MINING_REWARD
             None None of
        Inl e \<Rightarrow> Some (Inl e)
      | Inr (added, bc1) \<Rightarrow>
          (case ProofOfWork H bc1 of
             None \<Rightarrow> None
           | Some (Inl e) \<Rightarrow> Some (Inl e)
           | Some (Inr nonce) \<Rightarrow>
               (case LastBlock bc1 of
                  Inl e \<Rightarrow> Some (Inl e)
                | Inr b \<Rightarrow>
                    (let previousHash = H b;
                         (block, bc2) = CreateBlock now bc1 nonce previousHash
                     in Some (Inr (True, bc2))))))"

text \<open>\<^verbatim>\<open>NewBlockchain\<close>: the genesis block has nonce 0, the hash of the zero block as
  previous hash, and no transactions.\<close>

definition NewBlockchain :: "(block \<Rightarrow> hash32) \<Rightarrow> go_int \<Rightarrow> string \<Rightarrow> 16 word \<Rightarrow> blockchain" where
  "NewBlockchain H now blockChainAddress port =
     (let b = \<lparr>Nonce = 0, PreviousHash = 0, Timestamp = 0, Transactions = []\<rparr>;
          bc = \<lparr>TransactionPool = [], Chain = [], BlockChainAddress = blockChainAddress,
                Port = port, neighbours = []\<rparr>
      in snd (CreateBlock now bc 0 (H b)))"

section \<open>The balance as the specification words it\<close>






text \<open>The value of a finite \<^verbatim>\<open>float32\<close> in units of \<open>2^-149\<close>.\<close>

fun f32_scaled :: "float32 \<Rightarrow> int" where
  "f32_scaled (Finite s m e) = f32_int s m e (- 149)"
| "f32_scaled (Infinity s) = 0"
| "f32_scaled NaN = 0"





section \<open>Sample inputs\<close>

text \<open>A sample digest function for concrete instances: the three leading hex
  characters of the digest are the low 12 bits of \<open>nonce + 4093\<close>, so that exactly the
  nonces congruent to 3 modulo 4096 pass at difficulty 3.\<close>

definition sample_digest :: "block \<Rightarrow> hash32" where
  "sample_digest b = push_bit 244 (ucast (Nonce b + 4093 :: go_int) AND 4095)"

definition sample_genesis :: block where
  "sample_genesis = \<lparr>Nonce = 0, PreviousHash = 0, Timestamp = 0, Transactions = []\<rparr>"

definition sample_block1 :: block where
  "sample_block1 =
     \<lparr>Nonce = 3, PreviousHash = sample_digest sample_genesis, Timestamp = 1, Transactions = []\<rparr>"

text \<open>A sample network: the first neighbour answers 404, the second serves a valid
  chain of two blocks, the third a chain of three blocks whose links are broken, the
  fifth a chain whose second block is \<^verbatim>\<open>null\<close>; every other request fails.\<close>

definition sample_http_Get :: "string \<Rightarrow> response" where
  "sample_http_Get url =
     (if url = ''http://10.0.0.1:5001/chain'' then Response 404 (Inr [])
      else if url = ''http://10.0.0.2:5001/chain'' then
        Response 200 (Inr [Some sample_genesis, Some sample_block1])
      else if url = ''http://10.0.0.3:5001/chain'' then
        Response 200 (Inr [Some sample_genesis, Some sample_genesis, Some sample_genesis])
      else if url = ''http://10.0.0.5:5001/chain'' then
        Response 200 (Inr [Some sample_genesis, None])
      else NoResponse)"

definition sample_null_digest :: hash32 where
  "sample_null_digest = 1"

definition sample_ledger :: blockchain where
  "sample_ledger =
     \<lparr>TransactionPool = [], Chain = [sample_genesis], BlockChainAddress = ''miner'', Port = 5000,
      neighbours = [''10.0.0.1:5001'', ''10.0.0.2:5001'', ''10.0.0.3:5001'']\<rparr>"

text \<open>The same ledger with its chain as pointers.\<close>

definition sample_node :: "block option ledger" where
  "sample_node =
     \<lparr>TransactionPool = [], Chain = [Some sample_genesis], BlockChainAddress = ''miner'',
      Port = 5000,
      neighbours = [''10.0.0.1:5001'', ''10.0.0.2:5001'', ''10.0.0.3:5001'']\<rparr>"

text \<open>A sample signature scheme: the signature of the digest \<open>h\<close> under the key
  \<open>k\<close> is \<open>h + k\<close>; verification with a nil key panics.\<close>

definition sample_tx_digest :: "transaction \<Rightarrow> hash32" where
  "sample_tx_digest t =
     of_nat (length (SenderBlockchainAddress t) + 256 * length (RecipientBlockchainAddress t))"

definition sample_Verify :: "nat option \<Rightarrow> hash32 \<Rightarrow> hash32 \<Rightarrow> panic + bool" where
  "sample_Verify pk h rs = (case pk of None \<Rightarrow> Inl NilDereference | Some k \<Rightarrow> Inr (rs = h + of_nat k))"

text \<open>A ledger whose second block holds one mining reward for the address \<open>A\<close>.\<close>

definition sample_funded_ledger :: blockchain where
  "sample_funded_ledger =
     \<lparr>TransactionPool = [],
      Chain = [sample_genesis,
               \<lparr>Nonce = 3, PreviousHash = sample_digest sample_genesis, Timestamp = 1,
                Transactions = [NewTransaction MINING_SENDER ''A'' MINING_REWARD]\<rparr>],
      BlockChainAddress = ''A'', Port = 5000, neighbours = []\<rparr>"



section \<open>Lemmas\<close>

lemma length_sprintf_x: "length (sprintf_x h) = 64"
  by (simp add: sprintf_x_def)

lemma ValidProof_nonneg:
  "0 \<le> d \<Longrightarrow> ValidProof H n p txs d = Inr (d = 3 \<and> leading_zero_chars H n p txs 3)"
proof (cases "d = 3")
  case True
  then show ?thesis
    by (simp add: ValidProof_def leading_zero_chars_def Let_def)
next
  case False
  assume d: "0 \<le> d"
  let ?s = "sprintf_x (H \<lparr>Nonce = n, PreviousHash = p, Timestamp = 0, Transactions = txs\<rparr>)"
  have "length (take 3 ?s) = 3"
    by (simp add: length_sprintf_x)
  moreover have "length (replicate (nat d) CHR ''0'') \<noteq> 3"
    using False d by simp
  ultimately have "take 3 ?s \<noteq> replicate (nat d) CHR ''0''"
    by metis
  then show ?thesis
    using False d by (simp add: ValidProof_def Let_def)
qed

lemma ValidProof_3: "ValidProof H n p txs 3 = Inr (leading_zero_chars H n p txs 3)"
  by (simp add: ValidProof_nonneg)

lemma replicate_3: "replicate 3 c = [c, c, c]"
  by (simp add: numeral_3_eq_3)

lemma take3_sprintf_x:
  "take 3 (sprintf_x h) =
     [hex_digit (unat (drop_bit 252 h AND 15)), hex_digit (unat (drop_bit 248 h AND 15)),
      hex_digit (unat (drop_bit 244 h AND 15))]"
proof -
  have "take 3 [0..<64] = [0, 1, 2::nat]"
    by (simp add: upt_rec)
  then show ?thesis
    by (simp add: sprintf_x_def take_map)
qed

lemmas sample_eval = ValidProof_def take3_sprintf_x replicate_3 sample_digest_def hex_digit_def
  drop_bit_eq_div push_bit_eq_mult

subsection \<open>Chain validation\<close>

lemma ValidChain_loop_eq:
  "\<forall>b\<in>set rest. b \<noteq> None \<Longrightarrow>
   ValidChain_loop H H_nil pre rest =
     Inr (\<forall>i < length rest.
            PreviousHash (the (rest ! i)) = Block_Hash H H_nil ((pre # rest) ! i) \<and>
            ValidProof H (Nonce (the (rest ! i))) (PreviousHash (the (rest ! i)))
              (Transactions (the (rest ! i))) 3 = Inr True)"
proof (induction rest arbitrary: pre)
  case Nil
  show ?case by simp
next
  case (Cons b rest)
  then obtain blk where b: "b = Some blk" by auto
  from Cons.prems have "\<forall>b\<in>set rest. b \<noteq> None" by simp
  from Cons.IH [OF this, of b] show ?case
    by (simp add: b MINING_DIFFICULTY_def ValidProof_3 All_less_Suc2)
qed

lemma ValidChain_loop_nil:
  "None \<in> set rest \<Longrightarrow> ValidChain_loop H H_nil pre rest \<noteq> Inr True"
proof (induction rest arbitrary: pre)
  case Nil
  then show ?case by simp
next
  case (Cons b rest)
  show ?case
  proof (cases b)
    case None
    then show ?thesis by simp
  next
    case (Some blk)
    with Cons.prems have "None \<in> set rest" by simp
    from Cons.IH [OF this, of b] Some show ?thesis
      by (simp add: MINING_DIFFICULTY_def ValidProof_3)
  qed
qed

subsection \<open>The proof-of-work search\<close>

lemma ProofOfWork_loop_reaches:
  "ValidProof H (m + of_nat d) p txs 3 = Inr True \<Longrightarrow>
   \<exists>j\<le>d. ProofOfWork_loop H p txs 3 m = Some (Inr (m + of_nat j)) \<and>
     ValidProof H (m + of_nat j) p txs 3 = Inr True \<and>
     (\<forall>i<j. ValidProof H (m + of_nat i) p txs 3 = Inr False)"
proof (induction d arbitrary: m)
  case 0
  then have "ProofOfWork_loop H p txs 3 m = Some (Inr m)"
    by (subst ProofOfWork_loop.simps) simp
  with 0 show ?case by simp
next
  case (Suc d)
  show ?case
  proof (cases "leading_zero_chars H m p txs 3")
    case True
    then have "ProofOfWork_loop H p txs 3 m = Some (Inr m)"
      by (subst ProofOfWork_loop.simps) (simp add: ValidProof_3)
    with True show ?thesis
      by (intro exI [of _ 0]) (simp add: ValidProof_3)
  next
    case False
    then have step: "ProofOfWork_loop H p txs 3 m = ProofOfWork_loop H p txs 3 (m + 1)"
      by (subst ProofOfWork_loop.simps) (simp add: ValidProof_3)
    from Suc.prems have "ValidProof H (m + 1 + of_nat d) p txs 3 = Inr True"
      by (simp add: add.assoc)
    from Suc.IH [OF this] obtain j where j: "j \<le> d"
      "ProofOfWork_loop H p txs 3 (m + 1) = Some (Inr (m + 1 + of_nat j))"
      "ValidProof H (m + 1 + of_nat j) p txs 3 = Inr True"
      "\<forall>i<j. ValidProof H (m + 1 + of_nat i) p txs 3 = Inr False"
      by blast
    have "\<forall>i<Suc j. ValidProof H (m + of_nat i) p txs 3 = Inr False"
    proof (intro allI impI)
      fix i assume "i < Suc j"
      show "ValidProof H (m + of_nat i) p txs 3 = Inr False"
      proof (cases i)
        case 0
        with False show ?thesis by (simp add: ValidProof_3)
      next
        case (Suc i')
        with \<open>i < Suc j\<close> j(4) show ?thesis by (simp add: add.assoc)
      qed
    qed
    with j step show ?thesis
      by (intro exI [of _ "Suc j"]) (simp add: add.assoc)
  qed
qed

lemma ProofOfWork_loop_least:
  assumes "ValidProof H k p txs 3 = Inr True"
  shows "\<exists>n. ProofOfWork_loop H p txs 3 0 = Some (Inr n) \<and>
       ValidProof H n p txs 3 = Inr True \<and> unat n \<le> unat k \<and>
       (\<forall>j. unat j < unat n \<longrightarrow> ValidProof H j p txs 3 = Inr False)"
proof -
  from assms have "ValidProof H (0 + of_nat (unat k)) p txs 3 = Inr True"
    by simp
  from ProofOfWork_loop_reaches [OF this] obtain j where j: "j \<le> unat k"
    "ProofOfWork_loop H p txs 3 0 = Some (Inr (of_nat j))"
    "ValidProof H (of_nat j) p txs 3 = Inr True"
    "\<forall>i<j. ValidProof H (of_nat i) p txs 3 = Inr False"
    by auto
  have "j < 2 ^ 64"
    using j(1) unsigned_less [of k, where ?'a = nat] by simp
  then have u: "unat (of_nat j :: go_int) = j"
    by (simp add: unat_of_nat)
  have "\<forall>w :: go_int. unat w < j \<longrightarrow> ValidProof H w p txs 3 = Inr False"
  proof (intro allI impI)
    fix w :: go_int assume "unat w < j"
    with j(4) have "ValidProof H (of_nat (unat w)) p txs 3 = Inr False" by blast
    then show "ValidProof H w p txs 3 = Inr False" by simp
  qed
  with j u show ?thesis
    by (intro exI [of _ "of_nat j"]) simp
qed

lemma ProofOfWork_loop_Some:
  "ProofOfWork_loop H p txs d m = Some r \<Longrightarrow>
     (case r of Inl e \<Rightarrow> \<exists>n. ValidProof H n p txs d = Inl e
      | Inr n \<Rightarrow> ValidProof H n p txs d = Inr True)"
proof (induction rule: ProofOfWork_loop.raw_induct [rotated 1, consumes 1])
  case (1 loop H p txs d m r)
  show ?case
  proof (cases "ValidProof H m p txs d")
    case (Inl e)
    with 1(2) show ?thesis by auto
  next
    case (Inr ok)
    show ?thesis
    proof (cases ok)
      case True
      with Inr 1(2) show ?thesis by auto
    next
      case False
      with Inr 1(2) have "loop H p txs d (m + 1) = Some r" by simp
      then show ?thesis by (rule 1(1))
    qed
  qed
qed

lemma ProofOfWork_loop_never:
  assumes "\<And>n. ValidProof H n p txs d = Inr False"
  shows "ProofOfWork_loop H p txs d m = None"
proof (cases "ProofOfWork_loop H p txs d m")
  case None
  then show ?thesis .
next
  case (Some r)
  from ProofOfWork_loop_Some [OF this] assms show ?thesis
    by (cases r) simp_all
qed

subsection \<open>Consensus\<close>

text \<open>A pass that returns leaves \<^verbatim>\<open>maxLength\<close> at least as large as it was, adopts
  only chains that are strictly longer than the local one and pass \<^verbatim>\<open>ValidChain\<close>,
  and a later pass over the same responses that starts at the final \<^verbatim>\<open>maxLength\<close>
  adopts nothing.\<close>

lemma ResolveConflicts_loop_again:
  "ResolveConflicts_loop H H_nil g (lc, m) ns = Inr (lc', m') \<Longrightarrow>
   m \<le> m' \<and>
   (lc' \<noteq> lc \<longrightarrow> (\<exists>c. lc' = Some c \<and> m' = length c \<and> m < length c \<and>
       ValidChain H H_nil c = Inr True)) \<and>
   (lc' = lc \<longrightarrow> m' = m \<or> (\<exists>c. lc' = Some c \<and> m' = length c)) \<and>
   (\<forall>lc2 m2. m' \<le> m2 \<longrightarrow> ResolveConflicts_loop H H_nil g (lc2, m2) ns = Inr (lc2, m2))"
proof (induction ns arbitrary: lc m)
  case Nil
  then show ?case by simp
next
  case (Cons n ns)
  show ?case
  proof (cases "g (chain_endpoint n)")
    case NoResponse
    with Cons.prems show ?thesis by simp
  next
    case (Response st body)
    show ?thesis
    proof (cases "st = 200")
      case False
      with Response Cons.prems have "ResolveConflicts_loop H H_nil g (lc, m) ns = Inr (lc', m')"
        by simp
      from Cons.IH [OF this] False Response show ?thesis by simp
    next
      case True
      show ?thesis
      proof (cases body)
        case (Inl e)
        with True Response Cons.prems show ?thesis by simp
      next
        case (Inr chain)
        show ?thesis
        proof (cases "length chain > m")
          case False
          with True Response Inr Cons.prems
          have r: "ResolveConflicts_loop H H_nil g (lc, m) ns = Inr (lc', m')"
            by simp
          from Cons.IH [OF r] have ih: "m \<le> m'"
            "lc' \<noteq> lc \<longrightarrow> (\<exists>c. lc' = Some c \<and> m' = length c \<and> m < length c \<and>
               ValidChain H H_nil c = Inr True)"
            "lc' = lc \<longrightarrow> m' = m \<or> (\<exists>c. lc' = Some c \<and> m' = length c)"
            "\<forall>lc2 m2. m' \<le> m2 \<longrightarrow> ResolveConflicts_loop H H_nil g (lc2, m2) ns = Inr (lc2, m2)"
            by blast+
          have "\<forall>lc2 m2. m' \<le> m2 \<longrightarrow>
              ResolveConflicts_loop H H_nil g (lc2, m2) (n # ns) = Inr (lc2, m2)"
            using ih(1,4) False True Response Inr by simp
          with ih show ?thesis by blast
        next
          case long: True
          show ?thesis
          proof (cases "ValidChain H H_nil chain")
            case (Inl e)
            with long True Response Inr Cons.prems show ?thesis by simp
          next
            case ok: (Inr ok)
            show ?thesis
            proof (cases ok)
              case False
              with ok long True Response Inr Cons.prems
              have r: "ResolveConflicts_loop H H_nil g (lc, m) ns = Inr (lc', m')"
                by simp
              from Cons.IH [OF r] have ih: "m \<le> m'"
                "lc' \<noteq> lc \<longrightarrow> (\<exists>c. lc' = Some c \<and> m' = length c \<and> m < length c \<and>
                   ValidChain H H_nil c = Inr True)"
                "lc' = lc \<longrightarrow> m' = m \<or> (\<exists>c. lc' = Some c \<and> m' = length c)"
                "\<forall>lc2 m2. m' \<le> m2 \<longrightarrow> ResolveConflicts_loop H H_nil g (lc2, m2) ns = Inr (lc2, m2)"
                by blast+
              have "\<forall>lc2 m2. m' \<le> m2 \<longrightarrow>
                  ResolveConflicts_loop H H_nil g (lc2, m2) (n # ns) = Inr (lc2, m2)"
                using ih(4) False ok True Response Inr by simp
              with ih show ?thesis by blast
            next
              case valid: True
              with ok long True Response Inr Cons.prems
              have r: "ResolveConflicts_loop H H_nil g (Some chain, length chain) ns = Inr (lc', m')"
                by simp
              from Cons.IH [OF r] have ih: "length chain \<le> m'"
                "lc' \<noteq> Some chain \<longrightarrow> (\<exists>c. lc' = Some c \<and> m' = length c \<and>
                   length chain < length c \<and> ValidChain H H_nil c = Inr True)"
                "lc' = Some chain \<longrightarrow> m' = length chain \<or> (\<exists>c. lc' = Some c \<and> m' = length c)"
                "\<forall>lc2 m2. m' \<le> m2 \<longrightarrow> ResolveConflicts_loop H H_nil g (lc2, m2) ns = Inr (lc2, m2)"
                by blast+
              have 1: "m \<le> m'" using long ih(1) by simp
              have 2: "\<exists>c. lc' = Some c \<and> m' = length c \<and> m < length c \<and>
                  ValidChain H H_nil c = Inr True"
              proof (cases "lc' = Some chain")
                case True
                with ih(3) have "m' = length chain" by auto
                with True long ok valid show ?thesis by simp
              next
                case False
                with ih(2) long show ?thesis by auto
              qed
              have 4: "\<forall>lc2 m2. m' \<le> m2 \<longrightarrow>
                  ResolveConflicts_loop H H_nil g (lc2, m2) (n # ns) = Inr (lc2, m2)"
                using ih(1,4) True Response Inr by simp
              from 1 2 4 show ?thesis by blast
            qed
          qed
        qed
      qed
    qed
  qed
qed


lemma ResolveConflicts_spec:
  assumes "ResolveConflicts H H_nil g bc = Inr (r, bc')"
  shows "(r \<longrightarrow> (\<exists>c. bc' = bc\<lparr>Chain := c\<rparr> \<and> length (Chain bc) < length c \<and>
                  ValidChain H H_nil c = Inr True)) \<and>
         (\<not> r \<longrightarrow> bc' = bc) \<and>
         ResolveConflicts H H_nil g bc' = Inr (False, bc')"
proof -
  from assms obtain lc' m' where
    l: "ResolveConflicts_loop H H_nil g (None, length (Chain bc)) (neighbours bc) = Inr (lc', m')"
    by (auto simp: ResolveConflicts_def split: sum.splits)
  from ResolveConflicts_loop_again [OF l] have
    i2: "lc' \<noteq> None \<longrightarrow> (\<exists>c. lc' = Some c \<and> m' = length c \<and> length (Chain bc) < length c \<and>
           ValidChain H H_nil c = Inr True)" and
    i4: "\<forall>lc2 m2. m' \<le> m2 \<longrightarrow>
           ResolveConflicts_loop H H_nil g (lc2, m2) (neighbours bc) = Inr (lc2, m2)"
    by blast+
  show ?thesis
  proof (cases lc')
    case None
    with l assms have e: "r = False" "bc' = bc"
      by (simp_all add: ResolveConflicts_def)
    with assms show ?thesis by simp
  next
    case (Some c)
    with l assms have e: "r = True" "bc' = bc\<lparr>Chain := c\<rparr>"
      by (simp_all add: ResolveConflicts_def)
    from Some i2 have c: "m' = length c" "length (Chain bc) < length c"
      "ValidChain H H_nil c = Inr True"
      by simp_all
    from i4 c(1) have "ResolveConflicts_loop H H_nil g (None, length c) (neighbours bc) =
        Inr (None, length c)"
      by simp
    then have "ResolveConflicts H H_nil g (bc\<lparr>Chain := c\<rparr>) = Inr (False, bc\<lparr>Chain := c\<rparr>)"
      by (simp add: ResolveConflicts_def)
    with e c show ?thesis by auto
  qed
qed

lemma ResolveConflicts_Chain_nonempty:
  "ResolveConflicts H H_nil g bc = Inr (r, bc') \<Longrightarrow> Chain bc \<noteq> [] \<Longrightarrow> Chain bc' \<noteq> []"
  using ResolveConflicts_spec [of H H_nil g bc r bc'] by (cases r) auto

lemma sample_resolve:
  "ResolveConflicts sample_digest sample_null_digest sample_http_Get sample_node =
     Inr (True, sample_node\<lparr>Chain := [Some sample_genesis, Some sample_block1]\<rparr>)"
  by (simp add: ResolveConflicts_def sample_node_def sample_http_Get_def chain_endpoint_def
      ValidChain_def Block_Hash_def MINING_DIFFICULTY_def sample_genesis_def sample_block1_def
      sample_eval)

subsection \<open>float32 evaluation\<close>

lemma bit_length_simps [simp]:
  "bit_length 0 = 0"
  "bit_length (Suc 0) = 1"
  "bit_length 1 = 1"
  "bit_length (numeral Num.One) = 1"
  "bit_length (numeral (Num.Bit0 k)) = Suc (bit_length (numeral k))"
  "bit_length (numeral (Num.Bit1 k)) = Suc (bit_length (numeral k))"
proof -
  show "bit_length 0 = 0" by (simp add: bit_length.simps [of 0])
  show s: "bit_length (Suc 0) = 1" by (simp add: bit_length.simps [of "Suc 0"] bit_length.simps [of 0])
  then show "bit_length 1 = 1" "bit_length (numeral Num.One) = 1" by simp_all
  have "numeral (Num.Bit0 k) div 2 = (numeral k :: nat)" by simp
  then show "bit_length (numeral (Num.Bit0 k)) = Suc (bit_length (numeral k))"
    by (subst bit_length.simps) simp
  have "numeral (Num.Bit1 k) div 2 = (numeral k :: nat)" by simp
  then show "bit_length (numeral (Num.Bit1 k)) = Suc (bit_length (numeral k))"
    by (subst bit_length.simps) simp
qed

lemmas f32_eval = f32_of_nat_def f32_round_def f32_zero_def f32_int_def f32_sub_def Let_def

subsection \<open>Admission\<close>

lemma AddTransaction_mining:
  "AddTransaction HT V bc MINING_SENDER recipient v pk s =
     Inr (True, bc\<lparr>TransactionPool := TransactionPool bc @ [NewTransaction MINING_SENDER recipient v]\<rparr>)"
  by (simp add: AddTransaction_def)




lemma AddTransaction_accepted:
  "sender \<noteq> MINING_SENDER \<Longrightarrow>
   VerifyTransactionSignature HT V pk s (NewTransaction sender recipient v) = Inr True \<Longrightarrow>
   \<not> f32_less (CalculateTotalAmount bc sender) v \<Longrightarrow>
   AddTransaction HT V bc sender recipient v pk s =
     Inr (True, bc\<lparr>TransactionPool := TransactionPool bc @ [NewTransaction sender recipient v]\<rparr>)"
  by (simp add: AddTransaction_def)

lemma CalculateTotalAmount_pool [simp]:
  "CalculateTotalAmount (bc\<lparr>TransactionPool := p\<rparr>) a = CalculateTotalAmount bc a"
  by (simp add: CalculateTotalAmount_def)

subsection \<open>Mining\<close>

lemma CopyTransactionPool_eq: "CopyTransactionPool bc = TransactionPool bc"
  by (simp add: CopyTransactionPool_def NewTransaction_def map_idI)

lemma Mining_spec:
  assumes "Chain bc \<noteq> []"
    and "ValidProof H k (H (last (Chain bc)))
           (TransactionPool bc @ [NewTransaction MINING_SENDER (BlockChainAddress bc) MINING_REWARD])
           3 = Inr True"
  shows "\<exists>nonce. Mining H HT V now bc =
           Some (Inr (True,
             bc\<lparr>Chain := Chain bc @
                   [\<lparr>Nonce = nonce, PreviousHash = H (last (Chain bc)), Timestamp = now,
                     Transactions = TransactionPool bc @
                       [NewTransaction MINING_SENDER (BlockChainAddress bc) MINING_REWARD]\<rparr>],
                TransactionPool := []\<rparr>)) \<and>
         ValidProof H nonce (H (last (Chain bc)))
           (TransactionPool bc @ [NewTransaction MINING_SENDER (BlockChainAddress bc) MINING_REWARD])
           3 = Inr True"
proof -
  let ?txs = "TransactionPool bc @ [NewTransaction MINING_SENDER (BlockChainAddress bc) MINING_REWARD]"
  from ProofOfWork_loop_least [OF assms(2)] obtain n where
    n: "ProofOfWork_loop H (H (last (Chain bc))) ?txs 3 0 = Some (Inr n)"
       "ValidProof H n (H (last (Chain bc))) ?txs 3 = Inr True"
    by blast
  have "Mining H HT V now bc =
           Some (Inr (True,
             bc\<lparr>Chain := Chain bc @
                   [\<lparr>Nonce = n, PreviousHash = H (last (Chain bc)), Timestamp = now,
                     Transactions = ?txs\<rparr>],
                TransactionPool := []\<rparr>))"
    using assms(1) n(1)
    by (simp add: Mining_def AddTransaction_mining ProofOfWork_def CopyTransactionPool_eq
        LastBlock_def MINING_DIFFICULTY_def CreateBlock_def newBlock_def Let_def)
  with n(2) show ?thesis by blast
qed

subsection \<open>Balances\<close>



lemma f32_scaled_neg [simp]: "f32_scaled (f32_neg v) = - f32_scaled v"
  by (cases v) (simp_all add: f32_int_def)



lemma AddTransaction_twice:
  assumes "sender \<noteq> MINING_SENDER"
    and "VerifyTransactionSignature HT V pk1 s1 (NewTransaction sender recipient1 v1) = Inr True"
    and "VerifyTransactionSignature HT V pk2 s2 (NewTransaction sender recipient2 v2) = Inr True"
    and "\<not> f32_less (CalculateTotalAmount bc sender) v1"
    and "\<not> f32_less (CalculateTotalAmount bc sender) v2"
  shows "\<exists>bc1 bc2.
           AddTransaction HT V bc sender recipient1 v1 pk1 s1 = Inr (True, bc1) \<and>
           AddTransaction HT V bc1 sender recipient2 v2 pk2 s2 = Inr (True, bc2) \<and>
           TransactionPool bc2 =
             TransactionPool bc @
               [NewTransaction sender recipient1 v1, NewTransaction sender recipient2 v2] \<and>
           Chain bc2 = Chain bc"
  using assms by (simp add: AddTransaction_accepted)

subsection \<open>The chain of a ledger is never empty\<close>

text \<open>\<^verbatim>\<open>NewBlockchain\<close> creates the genesis block, and no operation empties the chain:
  this is the condition under which \<^verbatim>\<open>LastBlock\<close>, and so \<^verbatim>\<open>ProofOfWork\<close> and
  \<^verbatim>\<open>Mining\<close>, do not panic.\<close>

lemma NewBlockchain_Chain:
  "Chain (NewBlockchain H now a p) =
     [\<lparr>Nonce = 0,
       PreviousHash = H \<lparr>Nonce = 0, PreviousHash = 0, Timestamp = 0, Transactions = []\<rparr>,
       Timestamp = now, Transactions = []\<rparr>]"
  by (simp add: NewBlockchain_def CreateBlock_def newBlock_def Let_def)

lemma AddTransaction_Chain:
  "AddTransaction HT V bc sender recipient v pk s = Inr (r, bc') \<Longrightarrow> Chain bc' = Chain bc"
  by (auto simp: AddTransaction_def Let_def split: if_splits sum.splits)

lemma Mining_Chain_nonempty:
  "Mining H HT V now bc = Some (Inr (r, bc')) \<Longrightarrow> Chain bc' \<noteq> []"
  by (auto simp: Mining_def AddTransaction_mining CreateBlock_def Let_def
      split: option.splits sum.splits prod.splits)

section \<open>Claims\<close>

text \<open>
  C1. \<^verbatim>\<open>ValidProof(n, p, txs, d)\<close> should be true exactly when the first \<open>d\<close> hex
  characters of the trial block's digest are \<open>0\<close>. At difficulty 0 that holds of every
  digest, yet the code answers false: it compares the first three characters with the
  empty string.
\<close>

theorem ValidProof_difficulty_zero:
  "ValidProof H n p txs 0 = Inr False \<and> leading_zero_chars H n p txs 0"
  by (simp add: ValidProof_nonneg leading_zero_chars_def)

text \<open>
  C2 (as amended). For a chain of at least one block whose pointers after the first
  are not nil, \<^verbatim>\<open>ValidChain\<close> returns, and returns true exactly when every block
  from index 1 on carries the hash of its predecessor as \<open>previousHash\<close> and passes
  the proof-of-work predicate at difficulty 3; so a chain of one block is valid and a
  single failing pair makes the result false. The function has the chain as its only
  input and a boolean as its only output.
\<close>

theorem ValidChain_nonempty:
  assumes "chain \<noteq> []"
    and "\<forall>i. 1 \<le> i \<and> i < length chain \<longrightarrow> chain ! i \<noteq> None"
  shows "ValidChain H H_nil chain =
     Inr (\<forall>i. 1 \<le> i \<and> i < length chain \<longrightarrow>
            PreviousHash (the (chain ! i)) = Block_Hash H H_nil (chain ! (i - 1)) \<and>
            ValidProof H (Nonce (the (chain ! i))) (PreviousHash (the (chain ! i)))
              (Transactions (the (chain ! i))) 3 = Inr True)"
proof -
  from assms(1) obtain pre rest where c: "chain = pre # rest"
    by (cases chain) auto
  have nn: "\<forall>b\<in>set rest. b \<noteq> None"
  proof
    fix b assume "b \<in> set rest"
    then obtain i where "i < length rest" "rest ! i = b"
      by (auto simp: in_set_conv_nth)
    with assms(2) [rule_format, of "Suc i"] c show "b \<noteq> None" by simp
  qed
  have "(\<forall>i. 1 \<le> i \<and> i < length chain \<longrightarrow>
            PreviousHash (the (chain ! i)) = Block_Hash H H_nil (chain ! (i - 1)) \<and>
            ValidProof H (Nonce (the (chain ! i))) (PreviousHash (the (chain ! i)))
              (Transactions (the (chain ! i))) 3 = Inr True)
     = (\<forall>i < length rest.
            PreviousHash (the (rest ! i)) = Block_Hash H H_nil ((pre # rest) ! i) \<and>
            ValidProof H (Nonce (the (rest ! i))) (PreviousHash (the (rest ! i)))
              (Transactions (the (rest ! i))) 3 = Inr True)"
    (is "?L = ?R")
  proof
    assume l: ?L
    show ?R
    proof (intro allI impI)
      fix i assume "i < length rest"
      with l [rule_format, of "Suc i"] c
      show "PreviousHash (the (rest ! i)) = Block_Hash H H_nil ((pre # rest) ! i) \<and>
            ValidProof H (Nonce (the (rest ! i))) (PreviousHash (the (rest ! i)))
              (Transactions (the (rest ! i))) 3 = Inr True"
        by auto
    qed
  next
    assume r: ?R
    show ?L
    proof (intro allI impI)
      fix i assume i: "1 \<le> i \<and> i < length chain"
      then obtain j where j: "i = Suc j" by (cases i) auto
      with i c have "j < length rest" by simp
      with r [rule_format, of j] j c
      show "PreviousHash (the (chain ! i)) = Block_Hash H H_nil (chain ! (i - 1)) \<and>
            ValidProof H (Nonce (the (chain ! i))) (PreviousHash (the (chain ! i)))
              (Transactions (the (chain ! i))) 3 = Inr True"
        by auto
    qed
  qed
  then show ?thesis
    by (simp add: ValidChain_def c ValidChain_loop_eq [OF nn])
qed

theorem ValidChain_nonempty_witness:
  "[Some sample_genesis, Some sample_block1] \<noteq> [] \<and>
   ValidChain sample_digest sample_null_digest [Some sample_genesis, Some sample_block1] = Inr True \<and>
   PreviousHash sample_block1 = sample_digest sample_genesis \<and>
   ValidProof sample_digest (Nonce sample_block1) (PreviousHash sample_block1)
     (Transactions sample_block1) 3 = Inr True \<and>
   ValidChain sample_digest sample_null_digest [Some sample_genesis] = Inr True"
proof -
  let ?c = "[Some sample_genesis, Some sample_block1]"
  have v: "ValidChain sample_digest sample_null_digest ?c = Inr True"
    by (simp add: ValidChain_def Block_Hash_def MINING_DIFFICULTY_def sample_genesis_def
        sample_block1_def sample_eval)
  have ne: "?c \<noteq> []" by simp
  have nn: "\<forall>i. 1 \<le> i \<and> i < length ?c \<longrightarrow> ?c ! i \<noteq> None"
    by (simp add: nth_Cons split: nat.splits)
  from ValidChain_nonempty [OF ne nn, of sample_digest sample_null_digest] v
  have "\<forall>i. 1 \<le> i \<and> i < length ?c \<longrightarrow>
          PreviousHash (the (?c ! i)) = Block_Hash sample_digest sample_null_digest (?c ! (i - 1)) \<and>
          ValidProof sample_digest (Nonce (the (?c ! i))) (PreviousHash (the (?c ! i)))
            (Transactions (the (?c ! i))) 3 = Inr True"
    by (simp only: sum.inject)
  from this [rule_format, of 1] have "PreviousHash sample_block1 = sample_digest sample_genesis \<and>
     ValidProof sample_digest (Nonce sample_block1) (PreviousHash sample_block1)
       (Transactions sample_block1) 3 = Inr True"
    by (auto simp: Block_Hash_def)
  moreover have "ValidChain sample_digest sample_null_digest [Some sample_genesis] = Inr True"
    using ValidChain_nonempty [of "[Some sample_genesis]" sample_digest sample_null_digest]
    by simp
  ultimately show ?thesis using v by auto
qed

text \<open>C2 as stated fails on the chain of no blocks: reading \<^verbatim>\<open>chain[0]\<close> panics.\<close>

theorem ValidChain_empty_counterexample:
  "ValidChain sample_digest sample_null_digest [] = Inl IndexOutOfRange"
  by (simp add: ValidChain_def)



text \<open>
  C4. A fetched chain that does not validate should be passed over, and the call should
  return false when no fetched chain is longer and valid. The code panics instead when
  a fetched chain that is longer than the local one holds a nil block after its first:
  \<^verbatim>\<open>ValidChain\<close> reads \<^verbatim>\<open>b.PreviousHash\<close> of the nil pointer. Here the second of three
  neighbours serves the chain of a block and \<^verbatim>\<open>null\<close>, and the third a longer valid
  chain.
\<close>

theorem ResolveConflicts_nil_block_panics:
  "ResolveConflicts sample_digest sample_null_digest sample_http_Get
     (sample_node\<lparr>neighbours := [''10.0.0.1:5001'', ''10.0.0.5:5001'', ''10.0.0.2:5001'']\<rparr>) =
     Inl NilDereference"
  by (simp add: ResolveConflicts_def sample_node_def sample_http_Get_def chain_endpoint_def
      ValidChain_def)

text \<open>
  C9. When a call of \<^verbatim>\<open>ResolveConflicts\<close> has returned, a second call with the same
  peer data returns false and leaves the ledger as the first call left it.
\<close>

theorem ResolveConflicts_idempotent:
  "ResolveConflicts H H_nil g bc = Inr (r, bc') \<Longrightarrow>
   ResolveConflicts H H_nil g bc' = Inr (False, bc')"
  using ResolveConflicts_spec [of H H_nil g bc r bc'] by simp

theorem ResolveConflicts_idempotent_witness:
  "ResolveConflicts sample_digest sample_null_digest sample_http_Get sample_node =
     Inr (True, sample_node\<lparr>Chain := [Some sample_genesis, Some sample_block1]\<rparr>) \<and>
   ResolveConflicts sample_digest sample_null_digest sample_http_Get
     (sample_node\<lparr>Chain := [Some sample_genesis, Some sample_block1]\<rparr>) =
     Inr (False, sample_node\<lparr>Chain := [Some sample_genesis, Some sample_block1]\<rparr>)"
  using ResolveConflicts_idempotent [OF sample_resolve] sample_resolve by simp

text \<open>
  C6. A neighbour whose request fails should be skipped. The code drops the error of
  \<^verbatim>\<open>http.Get\<close> and reads \<^verbatim>\<open>resp.StatusCode\<close> of the nil response: the pass panics
  at that neighbour, and the neighbours after it are never asked. Here the second of
  three neighbours is unreachable and the third serves a longer valid chain.
\<close>

theorem ResolveConflicts_failed_fetch_panics:
  "ResolveConflicts sample_digest sample_null_digest sample_http_Get
     (sample_node\<lparr>neighbours := [''10.0.0.1:5001'', ''10.0.0.4:5001'', ''10.0.0.2:5001'']\<rparr>) =
     Inl NilDereference"
  by (simp add: ResolveConflicts_def sample_node_def sample_http_Get_def chain_endpoint_def)



text \<open>
  C7. On a ledger whose chain is not empty, and when some nonce passes the
  proof-of-work predicate for the pool with the reward appended (so that the search
  returns), \<^verbatim>\<open>Mining\<close> returns true; the chain is one block longer, the new last
  block holds the prior pool in order followed by one reward transaction from the
  reserved mining sender to the node's own address with the reward amount, its nonce
  passes the predicate, and the pool is empty. The pool may be empty beforehand.
\<close>

theorem Mining_appends_block:
  assumes "Chain bc \<noteq> []"
    and "ValidProof H k (H (last (Chain bc)))
           (TransactionPool bc @ [NewTransaction MINING_SENDER (BlockChainAddress bc) MINING_REWARD])
           MINING_DIFFICULTY = Inr True"
  shows "\<exists>nonce. Mining H HT V now bc =
           Some (Inr (True,
             bc\<lparr>Chain := Chain bc @
                   [\<lparr>Nonce = nonce, PreviousHash = H (last (Chain bc)), Timestamp = now,
                     Transactions = TransactionPool bc @
                       [NewTransaction MINING_SENDER (BlockChainAddress bc) MINING_REWARD]\<rparr>],
                TransactionPool := []\<rparr>)) \<and>
         ValidProof H nonce (H (last (Chain bc)))
           (TransactionPool bc @ [NewTransaction MINING_SENDER (BlockChainAddress bc) MINING_REWARD])
           MINING_DIFFICULTY = Inr True"
  using assms unfolding MINING_DIFFICULTY_def by (rule Mining_spec)

theorem Mining_appends_block_witness:
  "Chain sample_ledger \<noteq> [] \<and> TransactionPool sample_ledger = [] \<and>
   Mining sample_digest sample_tx_digest sample_Verify 42 sample_ledger =
     Some (Inr (True,
       sample_ledger\<lparr>Chain := [sample_genesis,
                \<lparr>Nonce = 3, PreviousHash = sample_digest sample_genesis, Timestamp = 42,
                  Transactions = [NewTransaction MINING_SENDER ''miner'' MINING_REWARD]\<rparr>],
              TransactionPool := []\<rparr>))"
proof -
  have c: "Chain sample_ledger \<noteq> []" and p: "TransactionPool sample_ledger = []"
    and l: "last (Chain sample_ledger) = sample_genesis"
    and a: "BlockChainAddress sample_ledger = ''miner''"
    by (simp_all add: sample_ledger_def)
  have v: "ValidProof sample_digest 3 (sample_digest (last (Chain sample_ledger)))
      (TransactionPool sample_ledger @
        [NewTransaction MINING_SENDER (BlockChainAddress sample_ledger) MINING_REWARD])
      MINING_DIFFICULTY = Inr True"
    by (simp add: MINING_DIFFICULTY_def sample_eval)
  from Mining_appends_block [OF c v, of sample_tx_digest sample_Verify 42]
  obtain nonce where m: "Mining sample_digest sample_tx_digest sample_Verify 42 sample_ledger =
           Some (Inr (True,
             sample_ledger\<lparr>Chain := Chain sample_ledger @
                   [\<lparr>Nonce = nonce, PreviousHash = sample_digest (last (Chain sample_ledger)),
                     Timestamp = 42,
                     Transactions = TransactionPool sample_ledger @
                       [NewTransaction MINING_SENDER (BlockChainAddress sample_ledger) MINING_REWARD]\<rparr>],
                TransactionPool := []\<rparr>))"
    by blast
  have e: "Mining sample_digest sample_tx_digest sample_Verify 42 sample_ledger =
     Some (Inr (True,
       sample_ledger\<lparr>Chain := [sample_genesis,
                \<lparr>Nonce = 3, PreviousHash = sample_digest sample_genesis, Timestamp = 42,
                  Transactions = [NewTransaction MINING_SENDER ''miner'' MINING_REWARD]\<rparr>],
              TransactionPool := []\<rparr>))"
    by (simp add: Mining_def AddTransaction_mining ProofOfWork_def CopyTransactionPool_eq
        LastBlock_def CreateBlock_def newBlock_def Let_def sample_ledger_def
        ProofOfWork_loop.simps MINING_DIFFICULTY_def sample_eval)
  from m e c p show ?thesis by simp
qed




text \<open>
  C10. The balance test of \<^verbatim>\<open>AddTransaction\<close> reads the committed chain only. So two
  transactions of one sender, with valid signatures, each no larger than the sender's
  committed balance, are both admitted, one after the other, even when their sum exceeds
  that balance; both are then in the pool.
\<close>

theorem AddTransaction_pool_not_counted:
  assumes "sender \<noteq> MINING_SENDER"
    and "VerifyTransactionSignature HT V pk1 s1 (NewTransaction sender recipient1 v1) = Inr True"
    and "VerifyTransactionSignature HT V pk2 s2 (NewTransaction sender recipient2 v2) = Inr True"
    and "\<not> f32_less (CalculateTotalAmount bc sender) v1"
    and "\<not> f32_less (CalculateTotalAmount bc sender) v2"
    and "f32_less (CalculateTotalAmount bc sender) (f32_add v1 v2)"
  shows "\<exists>bc1 bc2.
           AddTransaction HT V bc sender recipient1 v1 pk1 s1 = Inr (True, bc1) \<and>
           AddTransaction HT V bc1 sender recipient2 v2 pk2 s2 = Inr (True, bc2) \<and>
           TransactionPool bc2 =
             TransactionPool bc @
               [NewTransaction sender recipient1 v1, NewTransaction sender recipient2 v2] \<and>
           Chain bc2 = Chain bc"
  using assms(1-5) by (rule AddTransaction_twice)

theorem AddTransaction_pool_not_counted_witness:
  "''A'' \<noteq> MINING_SENDER \<and>
   CalculateTotalAmount sample_funded_ledger ''A'' = f32_of_nat 1 \<and>
   f32_add (f32_of_nat 1) (f32_of_nat 1) = f32_of_nat 2 \<and>
   f32_less (f32_of_nat 1) (f32_of_nat 2) \<and>
   (\<exists>bc1 bc2.
      AddTransaction sample_tx_digest sample_Verify sample_funded_ledger ''A'' ''B'' (f32_of_nat 1)
        (Some 7) (Some 264) = Inr (True, bc1) \<and>
      AddTransaction sample_tx_digest sample_Verify bc1 ''A'' ''C'' (f32_of_nat 1)
        (Some 7) (Some 264) = Inr (True, bc2) \<and>
      TransactionPool bc2 =
        [NewTransaction ''A'' ''B'' (f32_of_nat 1), NewTransaction ''A'' ''C'' (f32_of_nat 1)])"
proof -
  have ne: "''A'' \<noteq> MINING_SENDER"
    by (simp add: MINING_SENDER_def)
  have bal: "CalculateTotalAmount sample_funded_ledger ''A'' = f32_of_nat 1"
    by (simp add: CalculateTotalAmount_def CalculateTotalAmount_step_def sample_funded_ledger_def
        sample_genesis_def NewTransaction_def MINING_SENDER_def MINING_REWARD_def f32_eval)
  have good: "VerifyTransactionSignature sample_tx_digest sample_Verify (Some 7) (Some 264)
      (NewTransaction ''A'' ''B'' (f32_of_nat 1)) = Inr True"
    "VerifyTransactionSignature sample_tx_digest sample_Verify (Some 7) (Some 264)
      (NewTransaction ''A'' ''C'' (f32_of_nat 1)) = Inr True"
    by (simp_all add: VerifyTransactionSignature_def sample_Verify_def sample_tx_digest_def
        NewTransaction_def)
  have sum: "f32_add (f32_of_nat 1) (f32_of_nat 1) = f32_of_nat 2"
    by (simp add: f32_eval)
  have less: "f32_less (f32_of_nat 1) (f32_of_nat 2)" "\<not> f32_less (f32_of_nat 1) (f32_of_nat 1)"
    by (simp_all add: f32_eval)
  have pool: "TransactionPool sample_funded_ledger = []"
    by (simp add: sample_funded_ledger_def)
  have h4: "\<not> f32_less (CalculateTotalAmount sample_funded_ledger ''A'') (f32_of_nat 1)"
    unfolding bal by (rule less(2))
  have h6: "f32_less (CalculateTotalAmount sample_funded_ledger ''A'')
      (f32_add (f32_of_nat 1) (f32_of_nat 1))"
    unfolding bal sum by (rule less(1))
  from AddTransaction_pool_not_counted [OF ne good h4 h4 h6]
  obtain bc1 bc2 where
    r: "AddTransaction sample_tx_digest sample_Verify sample_funded_ledger ''A'' ''B'' (f32_of_nat 1)
        (Some 7) (Some 264) = Inr (True, bc1)"
       "AddTransaction sample_tx_digest sample_Verify bc1 ''A'' ''C'' (f32_of_nat 1)
        (Some 7) (Some 264) = Inr (True, bc2)"
       "TransactionPool bc2 = TransactionPool sample_funded_ledger @
          [NewTransaction ''A'' ''B'' (f32_of_nat 1), NewTransaction ''A'' ''C'' (f32_of_nat 1)]"
    by blast
  from r(3) have "TransactionPool bc2 =
      [NewTransaction ''A'' ''B'' (f32_of_nat 1), NewTransaction ''A'' ''C'' (f32_of_nat 1)]"
    unfolding pool by simp
  with r(1,2) ne bal sum less(1) show ?thesis by blast
qed

end
